theory Spec2Isabelle
  imports Main "HOL-Library.Sublist" "HOL-Library.Multiset"
begin

section \<open>EcoChain marketplace: catalog view, category vocabulary and checkout pricing\<close>

text \<open>
  The development embeds \<^verbatim>\<open>client/src/pages/Marketplace.tsx\<close>: the mapper
  \<^verbatim>\<open>mapApiProductToProduct\<close>, the memoised \<^verbatim>\<open>computed\<close> view
  (category filter, search filter, sort, page slice), the \<^verbatim>\<open>categories\<close> list
  and the cart summary (\<^verbatim>\<open>maxTokensUsable\<close> and the final total).

  Numbers. A JavaScript number is modelled as an integer (prices, token amounts, scores and
  quantities are whole numbers in this application, and doubles are exact on integers below
  \<open>2^53\<close>), with \<open>NaN\<close> as a separate value where the source tests a number for
  truthiness. Strings are byte strings; \<^verbatim>\<open>toLowerCase\<close> is modelled on ASCII letters.
\<close>

subsection \<open>Values that the source tests for truthiness\<close>

datatype jsnum = NaN | Num int

text \<open>\<^verbatim>\<open>x || d\<close> on an optional number: \<^verbatim>\<open>undefined\<close>, \<^verbatim>\<open>NaN\<close> and
  \<^verbatim>\<open>0\<close> are falsy and give \<open>d\<close>; every other number is returned unchanged.\<close>

fun num_or :: "jsnum option \<Rightarrow> int \<Rightarrow> int" where
  "num_or None d = d"
| "num_or (Some NaN) d = d"
| "num_or (Some (Num n)) d = (if n = 0 then d else n)"

text \<open>\<^verbatim>\<open>x || d\<close> on an optional string: \<^verbatim>\<open>undefined\<close> and the empty string
  are falsy.\<close>

fun str_or :: "string option \<Rightarrow> string \<Rightarrow> string" where
  "str_or None d = d"
| "str_or (Some s) d = (if s = [] then d else s)"

text \<open>\<^verbatim>\<open>xs?.[0]\<close>: \<^verbatim>\<open>undefined\<close> when the array is absent or empty.\<close>

fun first_opt :: "'a list option \<Rightarrow> 'a option" where
  "first_opt None = None"
| "first_opt (Some []) = None"
| "first_opt (Some (x # xs)) = Some x"

subsection \<open>Data model\<close>

text \<open>Modelled from the spec: the type \<^verbatim>\<open>MarketplaceItem\<close>, declared in
  \<^verbatim>\<open>services/marketplaceService.ts\<close>. Its shape is the specification's
  \<^verbatim>\<open>RawProduct\<close>,
  \<^verbatim>\<open>{ id, name, description?, price: { fiatAmount?, tokenAmount? }, category?,
  images?: sequence<string>, sustainabilityScore?, status? }\<close>,
  with the types that the mapper's reads and the \<^verbatim>\<open>Product\<close> interface imply: a
  price object, two optional numbers in it (the mapper assigns them to fields of type
  \<^verbatim>\<open>number\<close>), optional images. These records describe well-typed input only; what
  the mapper does on any input is modelled further down, on run-time values.\<close>

record price_obj =
  fiatAmount :: "jsnum option"
  tokenAmount :: "jsnum option"

record MarketplaceItem =
  api_id :: string
  api_name :: string
  api_description :: "string option"
  api_price :: price_obj
  api_category :: "string option"
  api_images :: "string list option"
  api_sustainabilityScore :: "jsnum option"
  api_status :: "string option"

datatype status = available | sold_out

text \<open>\<^verbatim>\<open>interface Product\<close>; the field \<^verbatim>\<open>id\<close> is named \<open>pid\<close>.\<close>

record Product =
  pid :: string
  name :: string
  description :: "string option"
  price :: int
  tokenPrice :: int
  category :: "string option"
  imageUrl :: "string option"
  sustainabilityScore :: "int option"
  status :: "status option"

subsection \<open>The mapper\<close>

definition placeholder :: string where
  "placeholder = ''https://via.placeholder.com/150''"

definition mapApiProductToProduct :: "MarketplaceItem \<Rightarrow> Product" where
  "mapApiProductToProduct apiProduct =
     \<lparr> pid = api_id apiProduct,
       name = api_name apiProduct,
       description = api_description apiProduct,
       price = num_or (fiatAmount (api_price apiProduct)) 0,
       tokenPrice = num_or (tokenAmount (api_price apiProduct)) 0,
       category = api_category apiProduct,
       imageUrl = Some (str_or (first_opt (api_images apiProduct)) placeholder),
       sustainabilityScore = Some (num_or (api_sustainabilityScore apiProduct) 85),
       status = Some (if api_status apiProduct = Some ''sold_out'' then sold_out else available) \<rparr>"

subsection \<open>The mapper on arbitrary run-time values\<close>

text \<open>The record types above are what the TypeScript declarations promise. The raw records
  are parsed from a network response, so at run time a field can hold any value. The mapper
  is therefore also modelled on untyped values, with the exception it can raise as a
  result.\<close>

datatype jsval =
    Undefined
  | Null
  | JBool bool
  | JNum jsnum
  | JStr string
  | JArray "jsval list"
  | JObject "(string \<times> jsval) list"

datatype js_error = TypeError

text \<open>Truthiness: \<^verbatim>\<open>undefined\<close>, \<^verbatim>\<open>null\<close>, \<^verbatim>\<open>false\<close>, \<^verbatim>\<open>NaN\<close>,
  \<^verbatim>\<open>0\<close> and the empty string are falsy, every other value is truthy.\<close>

fun truthy :: "jsval \<Rightarrow> bool" where
  "truthy Undefined = False"
| "truthy Null = False"
| "truthy (JBool b) = b"
| "truthy (JNum NaN) = False"
| "truthy (JNum (Num n)) = (n \<noteq> 0)"
| "truthy (JStr s) = (s \<noteq> [])"
| "truthy (JArray xs) = True"
| "truthy (JObject fs) = True"

text \<open>\<^verbatim>\<open>x || d\<close>: the left operand if it is truthy, else the right one.\<close>

definition js_or :: "jsval \<Rightarrow> jsval \<Rightarrow> jsval" where
  "js_or x d = (if truthy x then x else d)"

text \<open>The value of a data property \<open>k\<close> of a value that is neither \<^verbatim>\<open>undefined\<close> nor
  \<^verbatim>\<open>null\<close>: an object gives the value stored under \<open>k\<close>, or \<^verbatim>\<open>undefined\<close>
  if it has none. For the keys read here (\<open>fiatAmount\<close>, \<open>tokenAmount\<close> and, on an
  object, \<open>0\<close>) no primitive value, array or prototype defines a property, so every other
  value gives \<^verbatim>\<open>undefined\<close>.\<close>

fun property :: "jsval \<Rightarrow> string \<Rightarrow> jsval" where
  "property (JObject fs) k = (case map_of fs k of None \<Rightarrow> Undefined | Some v \<Rightarrow> v)"
| "property v k = Undefined"

text \<open>\<^verbatim>\<open>v.k\<close>: reading a property of \<^verbatim>\<open>undefined\<close> or \<^verbatim>\<open>null\<close> raises a
  \<^verbatim>\<open>TypeError\<close>.\<close>

definition read_property :: "jsval \<Rightarrow> string \<Rightarrow> js_error + jsval" where
  "read_property v k = (if v = Undefined \<or> v = Null then Inl TypeError else Inr (property v k))"

text \<open>\<^verbatim>\<open>v?.[0]\<close>: \<^verbatim>\<open>undefined\<close> for \<^verbatim>\<open>undefined\<close> and \<^verbatim>\<open>null\<close>; the first
  element of an array, the first character of a string, the property \<open>0\<close> of an object;
  \<^verbatim>\<open>undefined\<close> where there is none.\<close>

fun first_elem :: "jsval \<Rightarrow> jsval" where
  "first_elem (JArray (x # xs)) = x"
| "first_elem (JStr (c # s)) = JStr [c]"
| "first_elem (JObject fs) = property (JObject fs) ''0''"
| "first_elem v = Undefined"

text \<open>A raw record as it arrives: an object whose eight fields hold any value, a missing
  field being \<^verbatim>\<open>undefined\<close>.\<close>

record JsItem =
  raw_id :: jsval
  raw_name :: jsval
  raw_description :: jsval
  raw_price :: jsval
  raw_category :: jsval
  raw_images :: jsval
  raw_sustainabilityScore :: jsval
  raw_status :: jsval

text \<open>The object the mapper builds.\<close>

record JsProduct =
  js_id :: jsval
  js_name :: jsval
  js_description :: jsval
  js_price :: jsval
  js_tokenPrice :: jsval
  js_category :: jsval
  js_imageUrl :: jsval
  js_sustainabilityScore :: jsval
  js_status :: jsval

text \<open>The mapper, field by field in the order of the object literal. The two reads through
  \<^verbatim>\<open>apiProduct.price\<close> are the only operations that can raise.\<close>

definition mapApiProductToProduct_js :: "JsItem \<Rightarrow> js_error + JsProduct" where
  "mapApiProductToProduct_js apiProduct =
     (case read_property (raw_price apiProduct) ''fiatAmount'' of
        Inl e \<Rightarrow> Inl e
      | Inr fiat \<Rightarrow>
          (case read_property (raw_price apiProduct) ''tokenAmount'' of
             Inl e \<Rightarrow> Inl e
           | Inr tokens \<Rightarrow>
               Inr \<lparr> js_id = raw_id apiProduct,
                     js_name = raw_name apiProduct,
                     js_description = raw_description apiProduct,
                     js_price = js_or fiat (JNum (Num 0)),
                     js_tokenPrice = js_or tokens (JNum (Num 0)),
                     js_category = raw_category apiProduct,
                     js_imageUrl = js_or (first_elem (raw_images apiProduct)) (JStr placeholder),
                     js_sustainabilityScore =
                       js_or (raw_sustainabilityScore apiProduct) (JNum (Num 85)),
                     js_status =
                       (if raw_status apiProduct = JStr ''sold_out'' then JStr ''sold_out''
                        else JStr ''available'') \<rparr>))"

text \<open>A typed raw record and a typed product as run-time values.\<close>

definition js_num_opt :: "jsnum option \<Rightarrow> jsval" where
  "js_num_opt x = (case x of None \<Rightarrow> Undefined | Some n \<Rightarrow> JNum n)"

definition js_str_opt :: "string option \<Rightarrow> jsval" where
  "js_str_opt x = (case x of None \<Rightarrow> Undefined | Some s \<Rightarrow> JStr s)"

definition js_of_item :: "MarketplaceItem \<Rightarrow> JsItem" where
  "js_of_item r =
     \<lparr> raw_id = JStr (api_id r),
       raw_name = JStr (api_name r),
       raw_description = js_str_opt (api_description r),
       raw_price = JObject [(''fiatAmount'', js_num_opt (fiatAmount (api_price r))),
                            (''tokenAmount'', js_num_opt (tokenAmount (api_price r)))],
       raw_category = js_str_opt (api_category r),
       raw_images = (case api_images r of None \<Rightarrow> Undefined | Some xs \<Rightarrow> JArray (map JStr xs)),
       raw_sustainabilityScore = js_num_opt (api_sustainabilityScore r),
       raw_status = js_str_opt (api_status r) \<rparr>"

definition js_of_status :: "status option \<Rightarrow> jsval" where
  "js_of_status x =
     (case x of None \<Rightarrow> Undefined
      | Some sold_out \<Rightarrow> JStr ''sold_out''
      | Some available \<Rightarrow> JStr ''available'')"

definition js_of_product :: "Product \<Rightarrow> JsProduct" where
  "js_of_product p =
     \<lparr> js_id = JStr (pid p),
       js_name = JStr (name p),
       js_description = js_str_opt (description p),
       js_price = JNum (Num (price p)),
       js_tokenPrice = JNum (Num (tokenPrice p)),
       js_category = js_str_opt (category p),
       js_imageUrl = js_str_opt (imageUrl p),
       js_sustainabilityScore = js_num_opt (map_option Num (sustainabilityScore p)),
       js_status = js_of_status (status p) \<rparr>"

subsection \<open>String operations used by the search\<close>

definition lower_char :: "char \<Rightarrow> char" where
  "lower_char c =
     (let n = (of_char c :: nat) in if 65 \<le> n \<and> n \<le> 90 then char_of (n + 32) else c)"

definition toLowerCase :: "string \<Rightarrow> string" where
  "toLowerCase s = map lower_char s"

text \<open>\<^verbatim>\<open>s.includes(t)\<close>: \<open>t\<close> occurs in \<open>s\<close> at some position.\<close>

fun str_includes :: "string \<Rightarrow> string \<Rightarrow> bool" where
  "str_includes [] t = (t = [])"
| "str_includes (c # s) t = (take (length t) (c # s) = t \<or> str_includes s t)"

subsection \<open>Array operations\<close>

text \<open>\<^verbatim>\<open>Array.prototype.sort(cmp)\<close> is stable; it is modelled as the stable insertion
  sort driven by the comparator: \<open>x\<close> goes before \<open>y\<close> when \<open>cmp x y \<le> 0\<close>.\<close>

fun insert_by :: "('a \<Rightarrow> 'a \<Rightarrow> int) \<Rightarrow> 'a \<Rightarrow> 'a list \<Rightarrow> 'a list" where
  "insert_by cmp x [] = [x]"
| "insert_by cmp x (y # ys) =
     (if cmp x y \<le> 0 then x # y # ys else y # insert_by cmp x ys)"

definition array_sort :: "('a \<Rightarrow> 'a \<Rightarrow> int) \<Rightarrow> 'a list \<Rightarrow> 'a list" where
  "array_sort cmp xs = foldr (insert_by cmp) xs []"

text \<open>\<^verbatim>\<open>Array.prototype.slice(start, end)\<close>: a negative index counts from the end, and
  both indices are clamped to the array.\<close>

definition array_slice :: "'a list \<Rightarrow> int \<Rightarrow> int \<Rightarrow> 'a list" where
  "array_slice xs start stop =
     (let len = int (length xs);
          k = (if start < 0 then max (len + start) 0 else min start len);
          fin = (if stop < 0 then max (len + stop) 0 else min stop len)
      in take (nat (fin - k)) (drop (nat k) xs))"

text \<open>\<^verbatim>\<open>new Set(xs)\<close> spread into an array: the elements in insertion order, a value
  that is already present is not added again.\<close>

definition set_add :: "'a list \<Rightarrow> 'a \<Rightarrow> 'a list" where
  "set_add acc x = (if x \<in> set acc then acc else acc @ [x])"

definition new_Set :: "'a list \<Rightarrow> 'a list" where
  "new_Set xs = foldl set_add [] xs"

subsection \<open>The memoised view: filter, search, sort, paginate\<close>

definition pageSize :: int where
  "pageSize = 12"

definition categoryStage :: "string \<Rightarrow> Product list \<Rightarrow> Product list" where
  "categoryStage activeCategory result =
     (if activeCategory \<noteq> ''all''
      then filter (\<lambda>p. category p = Some activeCategory) result
      else result)"

definition searchStage :: "string \<Rightarrow> Product list \<Rightarrow> Product list" where
  "searchStage searchTerm result =
     (if searchTerm \<noteq> []
      then (let t = toLowerCase searchTerm
            in filter (\<lambda>p. str_includes (toLowerCase (str_or (Some (name p)) [])) t \<or>
                           str_includes (toLowerCase (str_or (description p) [])) t) result)
      else result)"

definition sortStage :: "string \<Rightarrow> Product list \<Rightarrow> Product list" where
  "sortStage sortBy result =
     (let result = (if sortBy = ''price_low''
                    then array_sort (\<lambda>a b. price a - price b) result else result);
          result = (if sortBy = ''price_high''
                    then array_sort (\<lambda>a b. price b - price a) result else result)
      in result)"

record computed_view =
  total :: nat
  items :: "Product list"

definition computed ::
  "Product list \<Rightarrow> string \<Rightarrow> string \<Rightarrow> string \<Rightarrow> int \<Rightarrow> computed_view" where
  "computed products activeCategory searchTerm sortBy page =
     (let result = sortStage sortBy (searchStage searchTerm (categoryStage activeCategory products));
          start = (page - 1) * pageSize;
          stop = start + pageSize
      in \<lparr> total = length result, items = array_slice result start stop \<rparr>)"

text \<open>\<^verbatim>\<open>Math.max(1, Math.ceil(computed.total / pageSize))\<close> and the two page buttons.\<close>

definition totalPages :: "nat \<Rightarrow> int" where
  "totalPages n = max 1 ((int n + pageSize - 1) div pageSize)"

definition prevPage :: "int \<Rightarrow> int" where
  "prevPage p = max 1 (p - 1)"

definition nextPage :: "int \<Rightarrow> int \<Rightarrow> int" where
  "nextPage pages p = min pages (p + 1)"

subsection \<open>The category vocabulary\<close>

definition categories :: "Product list \<Rightarrow> string list" where
  "categories products =
     ''all'' # new_Set (map (\<lambda>product. str_or (category product) ''uncategorized'') products)"

text \<open>First-seen order, as the specification words it: the first occurrence of every value
  is kept and the later ones are dropped.\<close>

fun first_seen :: "'a list \<Rightarrow> 'a list" where
  "first_seen [] = []"
| "first_seen (x # xs) = x # filter (\<lambda>y. y \<noteq> x) (first_seen xs)"

subsection \<open>The cart summary\<close>

text \<open>Modelled from the spec: the user object of \<^verbatim>\<open>AuthContext\<close>, the wallet
  source whose balance is a number and counts as 0 for an unauthenticated user. Only the path
  \<^verbatim>\<open>user?.ecoWallet?.currentBalance\<close> is read.\<close>

record EcoWallet =
  currentBalance :: "jsnum option"

record User =
  ecoWallet :: "EcoWallet option"

definition totalEcoTokens :: "User option \<Rightarrow> int" where
  "totalEcoTokens user =
     num_or (case user of None \<Rightarrow> None
             | Some u \<Rightarrow> (case ecoWallet u of None \<Rightarrow> None | Some w \<Rightarrow> currentBalance w)) 0"

definition maxTokensUsable :: "int \<Rightarrow> User option \<Rightarrow> int" where
  "maxTokensUsable tokenTotal user = min tokenTotal (totalEcoTokens user)"

definition finalTotal :: "int \<Rightarrow> int \<Rightarrow> User option \<Rightarrow> int" where
  "finalTotal cartTotal tokenTotal user = cartTotal - (maxTokensUsable tokenTotal user * 5)"

definition user_with_balance :: "int \<Rightarrow> User option" where
  "user_with_balance b = Some \<lparr> ecoWallet = Some \<lparr> currentBalance = Some (Num b) \<rparr> \<rparr>"

subsection \<open>The cart engine\<close>

text \<open>Modelled from the spec: the cart of \<^verbatim>\<open>contexts/CartContext.tsx\<close>, whose
  operations the page only calls. A cart line is a product with an integer quantity, and a
  cart is the ordered sequence of its lines.\<close>

record CartLine =
  product :: Product
  quantity :: int

type_synonym Cart = "CartLine list"

definition has_line :: "string \<Rightarrow> Cart \<Rightarrow> bool" where
  "has_line productId cart = (productId \<in> set (map (\<lambda>l. pid (product l)) cart))"

text \<open>Modelled from the spec: the body of \<^verbatim>\<open>addToCart\<close> (CartContext). If a line for
  \<open>product.id\<close> exists, increment its quantity by 1; else append a new line with
  quantity 1.\<close>

definition addToCart :: "Product \<Rightarrow> Cart \<Rightarrow> Cart" where
  "addToCart p cart =
     (if has_line (pid p) cart
      then map (\<lambda>l. if pid (product l) = pid p then l\<lparr>quantity := quantity l + 1\<rparr> else l) cart
      else cart @ [\<lparr> product = p, quantity = 1 \<rparr>])"

text \<open>Modelled from the spec: the body of \<^verbatim>\<open>removeFromCart\<close> (CartContext). Deletes the
  matching line if present; no-op if absent.\<close>

definition removeFromCart :: "string \<Rightarrow> Cart \<Rightarrow> Cart" where
  "removeFromCart productId cart = filter (\<lambda>l. pid (product l) \<noteq> productId) cart"

text \<open>Modelled from the spec: the body of \<^verbatim>\<open>updateQuantity\<close> (CartContext). If
  \<open>newQuantity <= 0\<close>, equivalent to \<open>removeFromCart\<close>; otherwise sets the line's
  quantity to \<open>newQuantity\<close> exactly.\<close>

definition updateQuantity :: "string \<Rightarrow> int \<Rightarrow> Cart \<Rightarrow> Cart" where
  "updateQuantity productId newQuantity cart =
     (if newQuantity \<le> 0 then removeFromCart productId cart
      else map (\<lambda>l. if pid (product l) = productId then l\<lparr>quantity := newQuantity\<rparr> else l) cart)"

text \<open>The cart invariant of the data model: every line has quantity at least 1, and no two
  lines are for the same product id.\<close>

definition cart_inv :: "Cart \<Rightarrow> bool" where
  "cart_inv cart =
     (list_all (\<lambda>l. 1 \<le> quantity l) cart \<and> distinct (map (\<lambda>l. pid (product l)) cart))"

text \<open>The quantity recorded for a product id, if the cart has a line for it.\<close>

definition line_quantity :: "string \<Rightarrow> Cart \<Rightarrow> int option" where
  "line_quantity productId cart =
     map_option quantity (find (\<lambda>l. pid (product l) = productId) cart)"

subsection \<open>Sample data\<close>

text \<open>A raw record with every optional field missing, a not-a-number token amount and an
  unknown status.\<close>

definition bare_item :: MarketplaceItem where
  "bare_item =
     \<lparr> api_id = ''p1'', api_name = ''Bamboo Wall Clock'', api_description = None,
       api_price = \<lparr> fiatAmount = None, tokenAmount = Some NaN \<rparr>, api_category = None,
       api_images = None, api_sustainabilityScore = None, api_status = Some ''archived'' \<rparr>"

text \<open>A raw record whose score is a genuine zero and whose first image is the empty string.\<close>

definition zero_item :: MarketplaceItem where
  "zero_item =
     \<lparr> api_id = ''p2'', api_name = ''Tote Bag'', api_description = Some ''Recycled cotton'',
       api_price = \<lparr> fiatAmount = Some (Num 300), tokenAmount = Some (Num 100) \<rparr>,
       api_category = Some ''bags'', api_images = Some [[], ''tote.png''],
       api_sustainabilityScore = Some (Num 0), api_status = Some ''sold_out'' \<rparr>"

text \<open>A raw record as it arrives with no price object at all.\<close>

definition no_price_item :: JsItem where
  "no_price_item =
     \<lparr> raw_id = JStr ''p3'', raw_name = JStr ''Bamboo Wall Clock'', raw_description = Undefined,
       raw_price = Undefined, raw_category = JStr ''decor'', raw_images = Undefined,
       raw_sustainabilityScore = Undefined, raw_status = JStr ''available'' \<rparr>"

text \<open>A raw record as it arrives whose fiat amount is the text \<open>abc\<close> and whose token
  amount, images, score and category are missing.\<close>

definition text_price_item :: JsItem where
  "text_price_item =
     \<lparr> raw_id = JStr ''p4'', raw_name = JStr ''Bamboo Wall Clock'', raw_description = Undefined,
       raw_price = JObject [(''fiatAmount'', JStr ''abc'')], raw_category = Undefined,
       raw_images = Undefined, raw_sustainabilityScore = Undefined,
       raw_status = JStr ''archived'' \<rparr>"

text \<open>The \<open>i\<close>-th product of a sample catalog: prices cycle through 0, 100, 200, every
  second product has no category.\<close>

definition sample :: "nat \<Rightarrow> Product" where
  "sample i =
     \<lparr> pid = replicate (Suc i) CHR ''p'', name = ''Bamboo Wall Clock'', description = None,
       price = int (i mod 3) * 100, tokenPrice = 10,
       category = (if even i then Some ''decor'' else None),
       imageUrl = Some placeholder, sustainabilityScore = Some 85, status = Some available \<rparr>"

definition catalog13 :: "Product list" where
  "catalog13 = map sample [0..<13]"

definition catalog4 :: "Product list" where
  "catalog4 = map sample [0..<4]"

text \<open>A product whose category is literally \<open>all\<close>.\<close>

definition all_product :: Product where
  "all_product = (sample 0)\<lparr> category := Some ''all'' \<rparr>"

definition sample_cart :: Cart where
  "sample_cart = [\<lparr> product = sample 0, quantity = 2 \<rparr>, \<lparr> product = sample 1, quantity = 1 \<rparr>]"

section \<open>Properties\<close>

subsection \<open>Auxiliary facts\<close>

lemma str_includes_sublist: "str_includes s t \<longleftrightarrow> sublist t s"
proof (induction s)
  case Nil
  show ?case by simp
next
  case (Cons c s)
  have "take (length t) (c # s) = t \<longleftrightarrow> prefix t (c # s)"
    by (metis append_eq_conv_conj prefix_def)
  with Cons show ?case
    by (simp add: sublist_Cons_right)
qed

lemma toLowerCase_Nil_iff: "toLowerCase s = [] \<longleftrightarrow> s = []"
  by (simp add: toLowerCase_def)

lemma insert_by_key:
  assumes "\<And>a b. cmp a b \<le> 0 \<longleftrightarrow> f a \<le> (f b :: int)"
  shows "insert_by cmp x ys = insort_key f x ys"
  by (induction ys) (simp_all add: assms)

lemma array_sort_key:
  assumes "\<And>a b. cmp a b \<le> 0 \<longleftrightarrow> f a \<le> (f b :: int)"
  shows "array_sort cmp xs = sort_key f xs"
  by (induction xs) (simp_all add: array_sort_def insert_by_key [OF assms])

lemma sortStage_low: "sortStage ''price_low'' xs = sort_key price xs"
proof -
  have "array_sort (\<lambda>a b. price a - price b) xs = sort_key price xs"
    by (rule array_sort_key) simp
  then show ?thesis by (simp add: sortStage_def)
qed

lemma sortStage_high: "sortStage ''price_high'' xs = sort_key (\<lambda>p. - price p) xs"
proof -
  have "array_sort (\<lambda>a b. price b - price a) xs = sort_key (\<lambda>p. - price p) xs"
    by (rule array_sort_key) simp
  then show ?thesis by (simp add: sortStage_def)
qed

lemma sortStage_other:
  "sortBy \<noteq> ''price_low'' \<Longrightarrow> sortBy \<noteq> ''price_high'' \<Longrightarrow> sortStage sortBy xs = xs"
  by (simp add: sortStage_def)

lemma sortStage_cases:
  "sortStage sortBy xs = sort_key price xs
   \<or> sortStage sortBy xs = sort_key (\<lambda>p. - price p) xs
   \<or> sortStage sortBy xs = xs"
  using sortStage_low sortStage_high sortStage_other by metis

lemma mset_sortStage: "mset (sortStage sortBy xs) = mset xs"
  using sortStage_cases [of sortBy xs] by auto

lemma length_sortStage: "length (sortStage sortBy xs) = length xs"
  using mset_sortStage by (metis size_mset)

lemma set_sortStage: "set (sortStage sortBy xs) = set xs"
  using mset_sortStage by (metis set_mset_mset)

lemma stable_sortStage:
  "filter (\<lambda>p. price p = k) (sortStage sortBy xs) = filter (\<lambda>p. price p = k) xs"
proof -
  have "filter (\<lambda>p. - price p = - k) (sort_key (\<lambda>p. - price p) xs)
        = filter (\<lambda>p. - price p = - k) xs"
    by (rule sort_key_stable)
  then show ?thesis
    using sortStage_cases [of sortBy xs] by (auto simp: sort_key_stable)
qed

lemma categoryStage_filter:
  "categoryStage c ps = filter (\<lambda>p. c = ''all'' \<or> category p = Some c) ps"
  by (simp add: categoryStage_def)

lemma searchStage_filter:
  "searchStage t ps =
     filter (\<lambda>p. t = [] \<or> sublist (toLowerCase t) (toLowerCase (name p))
        \<or> (\<exists>d. description p = Some d \<and> sublist (toLowerCase t) (toLowerCase d))) ps"
proof (cases "t = []")
  case True
  then show ?thesis by (simp add: searchStage_def)
next
  case False
  then have ne: "toLowerCase t \<noteq> []" by (simp add: toLowerCase_Nil_iff)
  have d: "str_includes (toLowerCase (str_or (description p) [])) (toLowerCase t)
        \<longleftrightarrow> (\<exists>d. description p = Some d \<and> sublist (toLowerCase t) (toLowerCase d))"
    for p :: Product
    using ne by (cases "description p") (auto simp: str_includes_sublist toLowerCase_def)
  have n: "str_includes (toLowerCase (str_or (Some (name p)) [])) (toLowerCase t)
        \<longleftrightarrow> sublist (toLowerCase t) (toLowerCase (name p))"
    for p :: Product
    by (auto simp: str_includes_sublist toLowerCase_def)
  show ?thesis
    using False by (simp only: searchStage_def Let_def d n if_True simp_thms)
qed

lemma array_slice_page:
  assumes "0 \<le> start" "0 \<le> n"
  shows "array_slice xs start (start + n) = take (nat n) (drop (nat start) xs)"
proof (cases "start \<le> int (length xs)")
  case True
  have "take (nat (min (start + n) (int (length xs)) - start)) (drop (nat start) xs)
        = take (nat n) (drop (nat start) xs)"
  proof (cases "start + n \<le> int (length xs)")
    case True
    then show ?thesis by (simp add: min_def)
  next
    case False
    with True assms have "length (drop (nat start) xs) \<le> nat (int (length xs) - start)"
      "length (drop (nat start) xs) \<le> nat n" by auto
    with False show ?thesis by (simp add: min_def)
  qed
  with True assms show ?thesis by (simp add: array_slice_def Let_def min_def)
next
  case False
  with assms show ?thesis by (simp add: array_slice_def Let_def min_def)
qed

lemma length_array_slice_window:
  assumes "0 \<le> n"
  shows "length (array_slice xs start (start + n)) \<le> nat n"
  using assms by (auto simp: array_slice_def Let_def min_def max_def)

lemma set_array_slice: "set (array_slice xs start stop) \<subseteq> set xs"
proof -
  have "set (take a (drop b xs)) \<subseteq> set xs" for a b
    using set_take_subset [of a "drop b xs"] set_drop_subset [of b xs] by blast
  then show ?thesis by (simp add: array_slice_def Let_def)
qed

lemma total_computed:
  "total (computed ps c t s page) = length (searchStage t (categoryStage c ps))"
  by (simp add: computed_def Let_def length_sortStage)

lemma items_computed:
  "items (computed ps c t s page) =
     array_slice (sortStage s (searchStage t (categoryStage c ps)))
       ((page - 1) * 12) ((page - 1) * 12 + 12)"
  by (simp add: computed_def Let_def pageSize_def)

text \<open>The page number starts at 1 and is changed only by the two page buttons and by the
  reset to 1 when the sort order changes; it therefore never drops below 1.\<close>

lemma page_stays_positive:
  "1 \<le> p \<Longrightarrow> 1 \<le> prevPage p \<and> 1 \<le> nextPage (totalPages n) p"
  by (simp add: prevPage_def nextPage_def totalPages_def)

lemma beyond_last_page:
  assumes "totalPages n < page"
  shows "int n \<le> (page - 1) * 12" and "1 \<le> page"
  using assms by (simp_all add: totalPages_def pageSize_def max_def split: if_splits)

subsection \<open>Checkout pricing\<close>

text \<open>Claim C1. For every cart subtotal, cart token subtotal and user token balance, the
  tokens applied are the minimum of the token subtotal and the balance, and the final total
  is the subtotal minus five times the tokens applied. The final total is not floored at
  zero: whenever the discount exceeds the subtotal it is negative.\<close>

theorem pricing_resolution:
  "maxTokensUsable tokenTotal (user_with_balance userTokenBalance)
     = min tokenTotal userTokenBalance
   \<and> finalTotal cartTotal tokenTotal (user_with_balance userTokenBalance)
     = cartTotal - min tokenTotal userTokenBalance * 5
   \<and> (cartTotal < min tokenTotal userTokenBalance * 5 \<longrightarrow>
        finalTotal cartTotal tokenTotal (user_with_balance userTokenBalance) < 0)"
  by (simp add: maxTokensUsable_def finalTotal_def totalEcoTokens_def user_with_balance_def)

theorem pricing_resolution_witness:
  "maxTokensUsable 120 (user_with_balance 50) = 50
   \<and> maxTokensUsable 120 (user_with_balance 200) = 120
   \<and> finalTotal 1000 20 (user_with_balance 20) = 900
   \<and> (10::int) < min 3 3 * 5
   \<and> finalTotal 10 3 (user_with_balance 3) = - 5
   \<and> finalTotal 10 3 (user_with_balance 3) < 0"
  using pricing_resolution [of 120 50 0] pricing_resolution [of 120 200 0]
    pricing_resolution [of 20 20 1000] pricing_resolution [of 3 3 10]
  by simp

subsection \<open>Pagination\<close>

text \<open>Claim C2. The reported total is the number of products left by the category and
  search filters, whatever the page. A page never holds more than twelve products. From
  page 1 on, the page holds the elements of the sorted result at the positions
  \<open>(page - 1) * 12\<close> up to, not including, \<open>page * 12\<close>. A page beyond the last
  valid page is empty, and the total does not depend on the page.\<close>

theorem pagination_slice:
  "total (computed ps c t s page) = length (searchStage t (categoryStage c ps))
   \<and> length (items (computed ps c t s page)) \<le> 12
   \<and> (1 \<le> page \<longrightarrow>
        items (computed ps c t s page)
          = take 12 (drop (nat ((page - 1) * 12)) (sortStage s (searchStage t (categoryStage c ps)))))
   \<and> (totalPages (total (computed ps c t s page)) < page \<longrightarrow>
        items (computed ps c t s page) = [])
   \<and> total (computed ps c t s page') = total (computed ps c t s page)"
proof (intro conjI impI)
  let ?r = "sortStage s (searchStage t (categoryStage c ps))"
  show "total (computed ps c t s page) = length (searchStage t (categoryStage c ps))"
    by (rule total_computed)
  show "length (items (computed ps c t s page)) \<le> 12"
    using length_array_slice_window [of 12 ?r "(page - 1) * 12"]
    by (simp add: items_computed)
  have slice: "items (computed ps c t s page) = take 12 (drop (nat ((page - 1) * 12)) ?r)"
    if "1 \<le> page"
    using that array_slice_page [of "(page - 1) * 12" 12 ?r]
    by (simp add: items_computed)
  show "items (computed ps c t s page) = take 12 (drop (nat ((page - 1) * 12)) ?r)"
    if "1 \<le> page"
    using that by (rule slice)
  show "items (computed ps c t s page) = []"
    if "totalPages (total (computed ps c t s page)) < page"
  proof -
    from that have "totalPages (length ?r) < page"
      by (simp add: total_computed length_sortStage)
    from beyond_last_page [OF this]
    have "length ?r \<le> nat ((page - 1) * 12)" and "1 \<le> page" by simp_all
    then show ?thesis by (simp add: slice)
  qed
  show "total (computed ps c t s page') = total (computed ps c t s page)"
    by (simp add: total_computed)
qed

theorem pagination_slice_witness:
  "(1::int) \<le> 2
   \<and> total (computed catalog13 ''all'' [] ''popular'' 2) = 13
   \<and> items (computed catalog13 ''all'' [] ''popular'' 2) = [sample 12]
   \<and> totalPages (total (computed catalog13 ''all'' [] ''popular'' 3)) < 3
   \<and> items (computed catalog13 ''all'' [] ''popular'' 3) = []"
proof -
  have t: "length (searchStage [] (categoryStage ''all'' catalog13)) = 13"
    by code_simp
  have p2: "take 12 (drop (nat ((2 - 1) * 12))
              (sortStage ''popular'' (searchStage [] (categoryStage ''all'' catalog13))))
            = [sample 12]"
    by code_simp
  have h2: "(1::int) \<le> 2" by simp
  have h3: "totalPages (total (computed catalog13 ''all'' [] ''popular'' 3)) < 3"
    by code_simp
  note w2 = pagination_slice [of catalog13 "''all''" "[]" "''popular''" 2 2]
  note w3 = pagination_slice [of catalog13 "''all''" "[]" "''popular''" 3 3]
  from w2 have "total (computed catalog13 ''all'' [] ''popular'' 2)
      = length (searchStage [] (categoryStage ''all'' catalog13))" by (rule conjunct1)
  then have t2: "total (computed catalog13 ''all'' [] ''popular'' 2) = 13"
    using t by (rule trans)
  from h2 have "items (computed catalog13 ''all'' [] ''popular'' 2)
      = take 12 (drop (nat ((2 - 1) * 12))
              (sortStage ''popular'' (searchStage [] (categoryStage ''all'' catalog13))))"
    by (rule w2 [THEN conjunct2, THEN conjunct2, THEN conjunct1, THEN mp])
  then have i2: "items (computed catalog13 ''all'' [] ''popular'' 2) = [sample 12]"
    using p2 by (rule trans)
  from h3 have i3: "items (computed catalog13 ''all'' [] ''popular'' 3) = []"
    by (rule w3 [THEN conjunct2, THEN conjunct2, THEN conjunct2, THEN conjunct1, THEN mp])
  from h2 t2 i2 h3 i3 show ?thesis by (intro conjI)
qed

subsection \<open>Category filter\<close>

text \<open>Claim C3. With a category other than \<open>all\<close>, every product of the page and every
  product of the result that the total counts has exactly that category, and the total is
  the exact number of products that match the category and the search (with an empty
  search term: that match the category). With the category \<open>all\<close> the category filter
  returns its input.\<close>

theorem category_filter_exact:
  "(c \<noteq> ''all'' \<longrightarrow>
      (\<forall>p \<in> set (items (computed ps c t s page)). category p = Some c)
      \<and> (\<forall>p \<in> set (sortStage s (searchStage t (categoryStage c ps))). category p = Some c)
      \<and> total (computed ps c t s page)
          = length (searchStage t (filter (\<lambda>p. category p = Some c) ps))
      \<and> total (computed ps c [] s page) = length (filter (\<lambda>p. category p = Some c) ps))
   \<and> categoryStage ''all'' ps = ps"
  (is "(_ \<longrightarrow> ?I \<and> ?R \<and> ?T \<and> ?E) \<and> ?P")
proof (intro conjI impI)
  show ?P by (simp add: categoryStage_def)
next
  assume "c \<noteq> ''all''"
  then have cs: "categoryStage c ps = filter (\<lambda>p. category p = Some c) ps"
    by (simp add: categoryStage_def)
  show r: ?R
    by (simp add: set_sortStage cs searchStage_filter)
  have "set (items (computed ps c t s page))
        \<subseteq> set (sortStage s (searchStage t (categoryStage c ps)))"
    by (simp add: items_computed set_array_slice)
  with r show ?I by (rule_tac ballI) (drule subsetD, assumption, erule bspec)
  show ?T by (simp add: total_computed cs)
  show ?E by (simp add: total_computed cs searchStage_def)
qed

theorem category_filter_exact_witness:
  "''decor'' \<noteq> ''all''
   \<and> list_all (\<lambda>p. category p = Some ''decor'')
        (items (computed catalog4 ''decor'' [] ''price_low'' 1))
   \<and> total (computed catalog4 ''decor'' [] ''price_low'' 1) = 2
   \<and> categoryStage ''all'' catalog4 = catalog4"
proof -
  have h: "''decor'' \<noteq> ''all''" by simp
  have n: "length (filter (\<lambda>p. category p = Some ''decor'') catalog4) = 2"
    by code_simp
  note w = category_filter_exact [of "''decor''" catalog4 "[]" "''price_low''" 1]
  note w1 = w [THEN conjunct1, THEN mp, OF h]
  from w1 have "\<forall>p \<in> set (items (computed catalog4 ''decor'' [] ''price_low'' 1)).
        category p = Some ''decor''"
    by (rule conjunct1)
  then have a: "list_all (\<lambda>p. category p = Some ''decor'')
        (items (computed catalog4 ''decor'' [] ''price_low'' 1))"
    by (rule list_all_iff [THEN iffD2])
  from w1 have "total (computed catalog4 ''decor'' [] ''price_low'' 1)
      = length (filter (\<lambda>p. category p = Some ''decor'') catalog4)"
    by (rule conjunct2 [THEN conjunct2, THEN conjunct2])
  then have b: "total (computed catalog4 ''decor'' [] ''price_low'' 1) = 2"
    using n by (rule trans)
  from w have c: "categoryStage ''all'' catalog4 = catalog4" by (rule conjunct2)
  from h a b c show ?thesis by (intro conjI)
qed

subsection \<open>Sorting\<close>

text \<open>Claim C4. Sorting follows the chosen policy and is stable. With \<open>price_low\<close> the
  result is ordered by price ascending, with \<open>price_high\<close> descending; for every price,
  the products of that price appear in the same relative order as before the sort, and the
  result is a rearrangement of the input. With \<open>popular\<close> the sort step returns its
  input unchanged, and since both filters only drop elements, the result is the original
  catalog order restricted to the matching products.\<close>

theorem sort_policy_stable:
  "sorted_wrt (\<lambda>a b. price a \<le> price b) (sortStage ''price_low'' xs)
   \<and> sorted_wrt (\<lambda>a b. price a \<ge> price b) (sortStage ''price_high'' xs)
   \<and> filter (\<lambda>p. price p = k) (sortStage sortBy xs) = filter (\<lambda>p. price p = k) xs
   \<and> mset (sortStage sortBy xs) = mset xs
   \<and> sortStage ''popular'' xs = xs
   \<and> subseq (searchStage t (categoryStage c ps)) ps
   \<and> subseq (sortStage ''popular'' (searchStage t (categoryStage c ps))) ps"
proof (intro conjI)
  show "sorted_wrt (\<lambda>a b. price a \<le> price b) (sortStage ''price_low'' xs)"
    using sorted_sort_key [of price xs] by (simp add: sortStage_low sorted_map)
  show "sorted_wrt (\<lambda>a b. price a \<ge> price b) (sortStage ''price_high'' xs)"
    using sorted_sort_key [of "\<lambda>p. - price p" xs] by (simp add: sortStage_high sorted_map)
  show "filter (\<lambda>p. price p = k) (sortStage sortBy xs) = filter (\<lambda>p. price p = k) xs"
    by (rule stable_sortStage)
  show "mset (sortStage sortBy xs) = mset xs"
    by (rule mset_sortStage)
  show pop: "sortStage ''popular'' xs = xs" for xs
    by (simp add: sortStage_def)
  show sub: "subseq (searchStage t (categoryStage c ps)) ps"
    by (simp add: searchStage_filter categoryStage_filter)
  show "subseq (sortStage ''popular'' (searchStage t (categoryStage c ps))) ps"
    by (simp only: pop sub)
qed

theorem sort_policy_stable_witness:
  "map pid (sortStage ''price_low'' catalog4) = map pid [sample 0, sample 3, sample 1, sample 2]
   \<and> map pid (sortStage ''price_high'' catalog4) = map pid [sample 2, sample 1, sample 0, sample 3]
   \<and> filter (\<lambda>p. price p = 0) (sortStage ''price_high'' catalog4)
       = filter (\<lambda>p. price p = 0) catalog4
   \<and> sortStage ''popular'' catalog4 = catalog4"
proof -
  have lo: "map pid (sortStage ''price_low'' catalog4)
            = map pid [sample 0, sample 3, sample 1, sample 2]"
    by code_simp
  have hi: "map pid (sortStage ''price_high'' catalog4)
            = map pid [sample 2, sample 1, sample 0, sample 3]"
    by code_simp
  note w = sort_policy_stable [of catalog4 0 "''price_high''" "[]" "''all''" catalog4]
  from w have st: "filter (\<lambda>p. price p = 0) (sortStage ''price_high'' catalog4)
       = filter (\<lambda>p. price p = 0) catalog4"
    by (rule conjunct2 [THEN conjunct2, THEN conjunct1])
  from w have po: "sortStage ''popular'' catalog4 = catalog4"
    by (rule conjunct2 [THEN conjunct2, THEN conjunct2, THEN conjunct2, THEN conjunct1])
  from lo hi st po show ?thesis by (intro conjI)
qed

subsection \<open>Search filter\<close>

text \<open>Claim C5. For a non-empty search term the search filter keeps exactly the products
  whose lower-cased name, or whose lower-cased description if there is one, contains the
  lower-cased term as a contiguous substring. Searching \<open>bamboo\<close> keeps every product
  named \<open>Bamboo Wall Clock\<close>. An empty search term keeps all products.\<close>

theorem search_filter_exact:
  "(t \<noteq> [] \<longrightarrow>
      searchStage t ps =
        filter (\<lambda>p. sublist (toLowerCase t) (toLowerCase (name p))
                  \<or> (\<exists>d. description p = Some d \<and> sublist (toLowerCase t) (toLowerCase d))) ps)
   \<and> (name p = ''Bamboo Wall Clock'' \<longrightarrow> p \<in> set ps \<longrightarrow> p \<in> set (searchStage ''bamboo'' ps))
   \<and> searchStage [] ps = ps"
proof (intro conjI impI)
  assume "t \<noteq> []"
  then show "searchStage t ps =
        filter (\<lambda>p. sublist (toLowerCase t) (toLowerCase (name p))
                  \<or> (\<exists>d. description p = Some d \<and> sublist (toLowerCase t) (toLowerCase d))) ps"
    by (simp add: searchStage_filter)
next
  assume n: "name p = ''Bamboo Wall Clock''" and m: "p \<in> set ps"
  have "str_includes (toLowerCase ''Bamboo Wall Clock'') (toLowerCase ''bamboo'')"
    by code_simp
  then have "sublist (toLowerCase ''bamboo'') (toLowerCase (name p))"
    by (simp only: n str_includes_sublist)
  with m show "p \<in> set (searchStage ''bamboo'' ps)"
    by (simp add: searchStage_filter)
next
  show "searchStage [] ps = ps"
    by (simp add: searchStage_def)
qed

theorem search_filter_exact_witness:
  "''bamboo'' \<noteq> []
   \<and> searchStage ''bamboo'' catalog4 =
      filter (\<lambda>p. sublist (toLowerCase ''bamboo'') (toLowerCase (name p))
                \<or> (\<exists>d. description p = Some d
                      \<and> sublist (toLowerCase ''bamboo'') (toLowerCase d))) catalog4
   \<and> name (sample 1) = ''Bamboo Wall Clock'' \<and> sample 1 \<in> set catalog4
   \<and> sample 1 \<in> set (searchStage ''bamboo'' catalog4)
   \<and> searchStage ''bamboo'' catalog4 = catalog4
   \<and> searchStage ''bambi'' catalog4 = []
   \<and> searchStage [] catalog4 = catalog4"
proof -
  have h1: "name (sample 1) = ''Bamboo Wall Clock''" by (simp add: sample_def)
  have h2: "sample 1 \<in> set catalog4" by code_simp
  have h3: "''bamboo'' \<noteq> []" by simp
  have e1: "searchStage ''bamboo'' catalog4 = catalog4" by code_simp
  have e2: "searchStage ''bambi'' catalog4 = []" by code_simp
  note w = search_filter_exact [of "''bamboo''" catalog4 "sample 1"]
  from h1 h2 have m: "sample 1 \<in> set (searchStage ''bamboo'' catalog4)"
    by (rule w [THEN conjunct2, THEN conjunct1, THEN mp, THEN mp])
  from w have e: "searchStage [] catalog4 = catalog4"
    by (rule conjunct2 [THEN conjunct2])
  from h3 have f: "searchStage ''bamboo'' catalog4 =
      filter (\<lambda>p. sublist (toLowerCase ''bamboo'') (toLowerCase (name p))
                \<or> (\<exists>d. description p = Some d
                      \<and> sublist (toLowerCase ''bamboo'') (toLowerCase d))) catalog4"
    by (rule w [THEN conjunct1, THEN mp])
  from h3 f h1 h2 m e1 e2 e show ?thesis by (intro conjI)
qed

subsection \<open>The mapper\<close>

lemma truthy_iff:
  "truthy v \<longleftrightarrow>
     v \<noteq> Undefined \<and> v \<noteq> Null \<and> v \<noteq> JBool False \<and> v \<noteq> JNum NaN \<and> v \<noteq> JNum (Num 0)
     \<and> v \<noteq> JStr []"
  by (induction v rule: truthy.induct) auto

text \<open>On a record that has the declared types, the mapper on run-time values returns the
  product that the typed mapper computes.\<close>

lemma typed_mapper_agrees:
  "mapApiProductToProduct_js (js_of_item r) = Inr (js_of_product (mapApiProductToProduct r))"
proof -
  have n: "js_or (js_num_opt x) (JNum (Num d)) = JNum (Num (num_or x d))" for x d
    by (induction x d rule: num_or.induct) (simp_all add: js_or_def js_num_opt_def)
  have i: "js_or (first_elem (case xs of None \<Rightarrow> Undefined | Some ys \<Rightarrow> JArray (map JStr ys)))
             (JStr d) = JStr (str_or (first_opt xs) d)" for xs d
    by (induction xs rule: first_opt.induct) (simp_all add: js_or_def)
  have s: "js_str_opt x = JStr t \<longleftrightarrow> x = Some t" for x t
    by (cases x) (simp_all add: js_str_opt_def)
  have t: "js_str_opt (Some u) = JStr u" "js_num_opt (Some m) = JNum m" for u m
    by (simp_all add: js_str_opt_def js_num_opt_def)
  show ?thesis
    by (simp add: mapApiProductToProduct_js_def mapApiProductToProduct_def js_of_item_def
        js_of_product_def read_property_def n i s t js_of_status_def)
qed

lemma missing_price_raises:
  "raw_price raw = Undefined \<or> raw_price raw = Null
   \<Longrightarrow> mapApiProductToProduct_js raw = Inl TypeError"
  by (auto simp: mapApiProductToProduct_js_def read_property_def)

text \<open>Claim C6, as stated, fails twice. A raw record without a price object makes the mapper
  raise a \<^verbatim>\<open>TypeError\<close>. A raw record whose fiat amount is the text \<open>abc\<close> is
  mapped to a product whose price is that text, not 0.\<close>

theorem normalize_total_counterexample:
  "mapApiProductToProduct_js no_price_item = Inl TypeError
   \<and> mapApiProductToProduct_js text_price_item =
       Inr \<lparr> js_id = JStr ''p4'', js_name = JStr ''Bamboo Wall Clock'',
             js_description = Undefined, js_price = JStr ''abc'', js_tokenPrice = JNum (Num 0),
             js_category = Undefined, js_imageUrl = JStr placeholder,
             js_sustainabilityScore = JNum (Num 85), js_status = JStr ''available'' \<rparr>"
  by (simp add: mapApiProductToProduct_js_def read_property_def no_price_item_def
      text_price_item_def js_or_def)

text \<open>Claim C6, amended. For every raw record whose price object is present, that is neither
  \<^verbatim>\<open>undefined\<close> nor \<^verbatim>\<open>null\<close>, the mapper returns a product. In that product the
  fiat price and the token price are 0 when the source amount is absent or otherwise falsy
  (\<^verbatim>\<open>null\<close>, \<^verbatim>\<open>false\<close>, \<^verbatim>\<open>NaN\<close>, \<^verbatim>\<open>0\<close>, the empty string), and are the
  source amount unchanged when it is truthy, whether it is a number or not. The image is the
  placeholder when the images are absent, the score is 85 when the score is absent, the
  status is \<open>sold_out\<close> for the source status \<open>sold_out\<close> and \<open>available\<close> for
  every other value, and id, name, description and category are copied.\<close>

theorem normalize_defaults_with_price:
  assumes "raw_price raw \<noteq> Undefined" and "raw_price raw \<noteq> Null"
  shows "\<exists>p. mapApiProductToProduct_js raw = Inr p
     \<and> js_price p =
         (if property (raw_price raw) ''fiatAmount''
               \<in> {Undefined, Null, JBool False, JNum NaN, JNum (Num 0), JStr []}
          then JNum (Num 0) else property (raw_price raw) ''fiatAmount'')
     \<and> js_tokenPrice p =
         (if property (raw_price raw) ''tokenAmount''
               \<in> {Undefined, Null, JBool False, JNum NaN, JNum (Num 0), JStr []}
          then JNum (Num 0) else property (raw_price raw) ''tokenAmount'')
     \<and> (raw_images raw = Undefined \<longrightarrow> js_imageUrl p = JStr placeholder)
     \<and> (raw_sustainabilityScore raw = Undefined \<longrightarrow> js_sustainabilityScore p = JNum (Num 85))
     \<and> js_status p =
         (if raw_status raw = JStr ''sold_out'' then JStr ''sold_out'' else JStr ''available'')
     \<and> js_id p = raw_id raw \<and> js_name p = raw_name raw
     \<and> js_description p = raw_description raw \<and> js_category p = raw_category raw"
proof -
  have o: "js_or v d = (if v \<in> {Undefined, Null, JBool False, JNum NaN, JNum (Num 0), JStr []}
                        then d else v)" for v d
    by (simp add: js_or_def truthy_iff)
  from assms show ?thesis
    by (simp add: mapApiProductToProduct_js_def read_property_def o)
qed

theorem normalize_defaults_with_price_witness:
  "raw_price text_price_item \<noteq> Undefined \<and> raw_price text_price_item \<noteq> Null
   \<and> property (raw_price text_price_item) ''fiatAmount'' = JStr ''abc''
   \<and> property (raw_price text_price_item) ''tokenAmount'' = Undefined
   \<and> raw_images text_price_item = Undefined
   \<and> raw_sustainabilityScore text_price_item = Undefined
   \<and> (\<exists>p. mapApiProductToProduct_js text_price_item = Inr p
        \<and> js_price p = JStr ''abc'' \<and> js_tokenPrice p = JNum (Num 0)
        \<and> js_imageUrl p = JStr placeholder \<and> js_sustainabilityScore p = JNum (Num 85)
        \<and> js_status p = JStr ''available'' \<and> js_category p = Undefined)"
proof -
  have h: "raw_price text_price_item \<noteq> Undefined" "raw_price text_price_item \<noteq> Null"
    by (simp_all add: text_price_item_def)
  have f: "property (raw_price text_price_item) ''fiatAmount'' = JStr ''abc''"
    "property (raw_price text_price_item) ''tokenAmount'' = Undefined"
    "raw_images text_price_item = Undefined"
    "raw_sustainabilityScore text_price_item = Undefined"
    by (simp_all add: text_price_item_def)
  have g: "raw_status text_price_item \<noteq> JStr ''sold_out''"
    "raw_category text_price_item = Undefined"
    by (simp_all add: text_price_item_def)
  from normalize_defaults_with_price [OF h] f g
  have "\<exists>p. mapApiProductToProduct_js text_price_item = Inr p
        \<and> js_price p = JStr ''abc'' \<and> js_tokenPrice p = JNum (Num 0)
        \<and> js_imageUrl p = JStr placeholder \<and> js_sustainabilityScore p = JNum (Num 85)
        \<and> js_status p = JStr ''available''
        \<and> js_id p = raw_id text_price_item \<and> js_name p = raw_name text_price_item
        \<and> js_description p = raw_description text_price_item \<and> js_category p = Undefined"
    by simp
  then have "\<exists>p. mapApiProductToProduct_js text_price_item = Inr p
        \<and> js_price p = JStr ''abc'' \<and> js_tokenPrice p = JNum (Num 0)
        \<and> js_imageUrl p = JStr placeholder \<and> js_sustainabilityScore p = JNum (Num 85)
        \<and> js_status p = JStr ''available'' \<and> js_category p = Undefined"
    by (elim exE conjE) (intro exI conjI; assumption)
  with h f show ?thesis by (intro conjI)
qed

text \<open>Claim C10. A score that is present and equal to 0 is replaced by 85, as an absent one
  is; a first image that is present and empty is replaced by the placeholder.\<close>

theorem falsy_present_values_default:
  "(api_sustainabilityScore raw = Some (Num 0)
      \<longrightarrow> sustainabilityScore (mapApiProductToProduct raw) = Some 85)
   \<and> (api_images raw = Some ([] # rest)
      \<longrightarrow> imageUrl (mapApiProductToProduct raw) = Some placeholder)"
  by (simp add: mapApiProductToProduct_def)

theorem falsy_present_values_default_witness:
  "api_sustainabilityScore zero_item = Some (Num 0)
   \<and> api_images zero_item = Some ([] # [''tote.png''])
   \<and> sustainabilityScore (mapApiProductToProduct zero_item) = Some 85
   \<and> imageUrl (mapApiProductToProduct zero_item) = Some placeholder"
proof -
  have h: "api_sustainabilityScore zero_item = Some (Num 0)"
    "api_images zero_item = Some ([] # [''tote.png''])"
    by (simp_all add: zero_item_def)
  from falsy_present_values_default [of zero_item "[''tote.png'']"] h
  show ?thesis by simp
qed

text \<open>Claim C7. A raw record without a category keeps no category after mapping: the mapper
  copies the field, and the sentinel \<open>uncategorized\<close> is only used when the category
  buttons are listed. The list offers \<open>uncategorized\<close> for such a product, and the query
  for \<open>uncategorized\<close> does not find it.\<close>

theorem uncategorized_query_misses:
  "api_category bare_item = None
   \<and> category (mapApiProductToProduct bare_item) = None
   \<and> categories [mapApiProductToProduct bare_item] = [''all'', ''uncategorized'']
   \<and> total (computed [mapApiProductToProduct bare_item] ''uncategorized'' [] ''popular'' 1) = 0
   \<and> items (computed [mapApiProductToProduct bare_item] ''uncategorized'' [] ''popular'' 1) = []"
  by code_simp

subsection \<open>Category vocabulary\<close>

lemma set_first_seen: "set (first_seen xs) = set xs"
  by (induction xs) auto

lemma distinct_first_seen: "distinct (first_seen xs)"
  by (induction xs) (auto simp: set_first_seen)

lemma foldl_set_add:
  "foldl set_add acc xs = acc @ filter (\<lambda>y. y \<notin> set acc) (first_seen xs)"
proof (induction xs arbitrary: acc)
  case Nil
  show ?case by simp
next
  case (Cons x xs)
  show ?case
  proof (cases "x \<in> set acc")
    case True
    then have "(y \<noteq> x \<and> y \<notin> set acc) = (y \<notin> set acc)" for y by auto
    with True Cons show ?thesis by (simp add: set_add_def)
  next
    case False
    have "(y \<notin> set acc \<and> y \<noteq> x) = (y \<noteq> x \<and> y \<notin> set acc)" for y by auto
    with False Cons [of "acc @ [x]"] show ?thesis by (simp add: set_add_def)
  qed
qed

lemma new_Set_first_seen: "new_Set xs = first_seen xs"
  by (simp add: new_Set_def foldl_set_add)

text \<open>Claim C8, as stated, fails: a product whose category is \<open>all\<close> puts a second
  \<open>all\<close> into the list.\<close>

theorem categories_duplicate_counterexample:
  "\<not> distinct (categories [all_product])"
  by code_simp

text \<open>Claim C8, amended. The list is \<open>all\<close> followed by the category labels of the
  products in first-seen order with later duplicates dropped, where a product with an absent
  or empty category has the label \<open>uncategorized\<close>. The entries after \<open>all\<close> are
  pairwise distinct and are exactly the labels that occur. The whole list has no duplicate
  provided no product has the category \<open>all\<close>.\<close>

theorem categories_vocabulary:
  "categories ps = ''all'' # first_seen (map (\<lambda>p. str_or (category p) ''uncategorized'') ps)
   \<and> hd (categories ps) = ''all''
   \<and> distinct (tl (categories ps))
   \<and> set (tl (categories ps)) = (\<lambda>p. str_or (category p) ''uncategorized'') ` set ps
   \<and> ((\<forall>p \<in> set ps. category p \<noteq> Some ''all'') \<longrightarrow> distinct (categories ps))"
proof (intro conjI impI)
  let ?label = "\<lambda>p. str_or (category p) ''uncategorized''"
  show eq: "categories ps = ''all'' # first_seen (map ?label ps)"
    by (simp add: categories_def new_Set_first_seen)
  show "hd (categories ps) = ''all''"
    by (simp add: eq)
  show "distinct (tl (categories ps))"
    by (simp add: eq distinct_first_seen)
  show "set (tl (categories ps)) = ?label ` set ps"
    by (simp add: eq set_first_seen)
  assume no_all: "\<forall>p \<in> set ps. category p \<noteq> Some ''all''"
  have nl: "?label p \<noteq> ''all''" if "p \<in> set ps" for p
  proof (cases "category p")
    case None
    then show ?thesis by simp
  next
    case (Some c)
    with no_all that have "c \<noteq> ''all''" by auto
    with Some show ?thesis by simp
  qed
  have "''all'' \<notin> ?label ` set ps"
  proof
    assume "''all'' \<in> ?label ` set ps"
    then obtain p where m: "p \<in> set ps" and e: "''all'' = ?label p" by (rule imageE)
    from nl [OF m] e show False by (simp del: str_or.simps)
  qed
  then show "distinct (categories ps)"
    by (simp add: eq distinct_first_seen set_first_seen del: str_or.simps)
qed

theorem categories_vocabulary_witness:
  "list_all (\<lambda>p. category p \<noteq> Some ''all'') catalog4
   \<and> categories catalog4 = [''all'', ''decor'', ''uncategorized'']
   \<and> distinct (categories catalog4)"
proof -
  have l: "list_all (\<lambda>p. category p \<noteq> Some ''all'') catalog4"
    by code_simp
  then have h: "\<forall>p \<in> set catalog4. category p \<noteq> Some ''all''"
    by (rule list_all_iff [THEN iffD1])
  have e: "''all'' # first_seen (map (\<lambda>p. str_or (category p) ''uncategorized'') catalog4)
           = [''all'', ''decor'', ''uncategorized'']"
    by code_simp
  note w = categories_vocabulary [of catalog4]
  from w have "categories catalog4
      = ''all'' # first_seen (map (\<lambda>p. str_or (category p) ''uncategorized'') catalog4)"
    by (rule conjunct1)
  then have c: "categories catalog4 = [''all'', ''decor'', ''uncategorized'']"
    using e by (rule trans)
  from h have d: "distinct (categories catalog4)"
    by (rule w [THEN conjunct2, THEN conjunct2, THEN conjunct2, THEN conjunct2, THEN mp])
  from l c d show ?thesis by (intro conjI)
qed

subsection \<open>Cart operations\<close>

lemma cart_ids_map_quantity:
  "map (\<lambda>l. pid (product l))
     (map (\<lambda>l. if pid (product l) = i then l\<lparr>quantity := f l\<rparr> else l) cart)
   = map (\<lambda>l. pid (product l)) cart"
  by (induction cart) auto

lemma cart_inv_add: "cart_inv cart \<Longrightarrow> cart_inv (addToCart p cart)"
  by (auto simp: cart_inv_def addToCart_def has_line_def cart_ids_map_quantity list_all_iff
      simp del: map_map)

lemma cart_inv_remove: "cart_inv cart \<Longrightarrow> cart_inv (removeFromCart i cart)"
  by (auto simp: cart_inv_def removeFromCart_def list_all_iff distinct_map_filter)

lemma cart_inv_update: "cart_inv cart \<Longrightarrow> cart_inv (updateQuantity i n cart)"
  by (auto simp: cart_inv_def updateQuantity_def removeFromCart_def list_all_iff
      distinct_map_filter cart_ids_map_quantity simp del: map_map)

lemma line_quantity_update_hit:
  "has_line i cart \<Longrightarrow> 0 < n \<Longrightarrow> line_quantity i (updateQuantity i n cart) = Some n"
  by (induction cart) (auto simp: has_line_def line_quantity_def updateQuantity_def)

lemma line_quantity_update_other:
  "j \<noteq> i \<Longrightarrow> 0 < n \<Longrightarrow> line_quantity j (updateQuantity i n cart) = line_quantity j cart"
  by (induction cart) (auto simp: line_quantity_def updateQuantity_def)

lemma line_quantity_remove: "line_quantity i (removeFromCart i cart) = None"
  by (induction cart) (auto simp: line_quantity_def removeFromCart_def)

text \<open>Claim C9. Adding a product, removing a line and updating a quantity all preserve the
  cart invariant: every line has quantity at least 1 and no two lines share a product id.
  Updating with a quantity of 0 or less is removing the line, after which the cart has no
  line for that id. Updating with a positive quantity sets the quantity of that line to
  exactly the new quantity and leaves the other lines and the products of all lines as they
  were.\<close>

theorem cart_operations_invariant:
  assumes "cart_inv cart"
  shows "cart_inv (addToCart p cart)
     \<and> cart_inv (removeFromCart i cart)
     \<and> cart_inv (updateQuantity i n cart)
     \<and> (n \<le> 0 \<longrightarrow> updateQuantity i n cart = removeFromCart i cart)
     \<and> (0 < n \<longrightarrow> has_line i cart \<longrightarrow> line_quantity i (updateQuantity i n cart) = Some n)
     \<and> (0 < n \<longrightarrow> j \<noteq> i \<longrightarrow>
          line_quantity j (updateQuantity i n cart) = line_quantity j cart)
     \<and> (0 < n \<longrightarrow> map product (updateQuantity i n cart) = map product cart)
     \<and> line_quantity i (removeFromCart i cart) = None"
proof (intro conjI impI)
  show "cart_inv (addToCart p cart)" using assms by (rule cart_inv_add)
  show "cart_inv (removeFromCart i cart)" using assms by (rule cart_inv_remove)
  show "cart_inv (updateQuantity i n cart)" using assms by (rule cart_inv_update)
  show "updateQuantity i n cart = removeFromCart i cart" if "n \<le> 0"
    using that by (simp add: updateQuantity_def)
  show "line_quantity i (updateQuantity i n cart) = Some n" if "0 < n" "has_line i cart"
    using that by (simp add: line_quantity_update_hit)
  show "line_quantity j (updateQuantity i n cart) = line_quantity j cart" if "0 < n" "j \<noteq> i"
    using that by (simp add: line_quantity_update_other)
  show "map product (updateQuantity i n cart) = map product cart" if "0 < n"
    using that by (induction cart) (auto simp: updateQuantity_def)
  show "line_quantity i (removeFromCart i cart) = None"
    by (rule line_quantity_remove)
qed

theorem cart_operations_invariant_witness:
  "cart_inv sample_cart
   \<and> cart_inv (addToCart (sample 0) sample_cart)
   \<and> map quantity (addToCart (sample 0) sample_cart) = [3, 1]
   \<and> cart_inv (updateQuantity (pid (sample 0)) 5 sample_cart)
   \<and> has_line (pid (sample 0)) sample_cart
   \<and> line_quantity (pid (sample 0)) (updateQuantity (pid (sample 0)) 5 sample_cart) = Some 5
   \<and> updateQuantity (pid (sample 0)) 0 sample_cart = removeFromCart (pid (sample 0)) sample_cart
   \<and> map quantity (updateQuantity (pid (sample 0)) 0 sample_cart) = [1]"
proof -
  have h: "cart_inv sample_cart" by code_simp
  have l: "has_line (pid (sample 0)) sample_cart" by code_simp
  have q: "map quantity (addToCart (sample 0) sample_cart) = [3, 1]" by code_simp
  have r: "map quantity (updateQuantity (pid (sample 0)) 0 sample_cart) = [1]" by code_simp
  note w5 = cart_operations_invariant [OF h, of "sample 0" "pid (sample 0)" 5 "pid (sample 1)"]
  note w0 = cart_operations_invariant [OF h, of "sample 0" "pid (sample 0)" 0 "pid (sample 1)"]
  from w5 have a: "cart_inv (addToCart (sample 0) sample_cart)" by (rule conjunct1)
  from w5 have u: "cart_inv (updateQuantity (pid (sample 0)) 5 sample_cart)"
    by (rule conjunct2 [THEN conjunct2, THEN conjunct1])
  have "(0::int) < 5" by simp
  from this l
  have s: "line_quantity (pid (sample 0)) (updateQuantity (pid (sample 0)) 5 sample_cart) = Some 5"
    by (rule w5 [THEN conjunct2, THEN conjunct2, THEN conjunct2, THEN conjunct2,
                 THEN conjunct1, THEN mp, THEN mp])
  have "(0::int) \<le> 0" by simp
  then have z: "updateQuantity (pid (sample 0)) 0 sample_cart
      = removeFromCart (pid (sample 0)) sample_cart"
    by (rule w0 [THEN conjunct2, THEN conjunct2, THEN conjunct2, THEN conjunct1, THEN mp])
  from h a q u l s z r show ?thesis by (intro conjI)
qed

end
